theory Spec2Isabelle
  imports Main "HOL-Library.AList"
begin

section \<open>The fight history manager: data model\<close>

text \<open>
  The development embeds the class \<open>FightHistoryManager\<close> and the route
  \<open>POST /fight/timeout\<close> of the API router.

  JavaScript numbers are modelled as \<open>int\<close>: millisecond timestamps and the damage and
  healing amounts are integers, on which the arithmetic of doubles is exact below
  \<open>2 ^ 53\<close>. \<open>Date.now()\<close> is a parameter \<open>now\<close> of every operation that reads
  the clock. Logging and the socket events change no state of the manager and are left out.
\<close>

text \<open>
  The field \<open>userStats\<close> of a fight is an empty JavaScript \<open>Map\<close> when the fight is
  created (\<open>new Map()\<close>) and a plain object once \<open>saveUserDataSnapshot\<close> has replaced
  it. The per-user summaries come from the capture layer and are opaque here (type \<open>'u\<close>).
\<close>

datatype 'u userStats = JsMap | JsObject "(string \<times> 'u) list"

record 'u fight =
  fightId :: string
  startTime :: int
  endTime :: "int option"
  duration :: int
  totalDamage :: int
  totalHealing :: int
  userStats :: "'u userStats"
  isActive :: bool

record cumulative =
  cTotalDamage :: int
  cTotalHealing :: int
  cTotalFights :: int
  cTotalDuration :: int
  cStartTime :: "int option"

text \<open>
  The manager. \<open>fights\<close> is the JavaScript \<open>Map\<close> from fight id to fight, kept as an
  association list in insertion order; \<open>Map.prototype.set\<close> is \<open>AList.update\<close> (an
  existing key keeps its place and gets the new value, a new key goes to the end) and
  \<open>Map.prototype.get\<close> is \<open>map_of\<close>.

  \<open>pending\<close> holds the timestamps of the calls of the asynchronous \<open>startNewFight\<close> that
  are suspended at \<open>await this.fightLock.acquire()\<close>: an \<open>await\<close> always yields, so the
  body of \<open>startNewFight\<close> runs only after the synchronous caller has returned.
\<close>

record 'u manager =
  fights :: "(string \<times> 'u fight) list"
  currentFightId :: "string option"
  currentFightStartTime :: "int option"
  lastActivityTime :: int
  fightTimeout :: int
  cumulativeStats :: cumulative
  pending :: "int list"

text \<open>The constructor; \<open>now\<close> is the clock at construction.\<close>

definition newFightHistoryManager :: "int \<Rightarrow> 'u manager" where
  "newFightHistoryManager now =
     \<lparr> fights = [], currentFightId = None, currentFightStartTime = None,
       lastActivityTime = 0, fightTimeout = 15000,
       cumulativeStats = \<lparr> cTotalDamage = 0, cTotalHealing = 0, cTotalFights = 0,
                           cTotalDuration = 0, cStartTime = Some now \<rparr>,
       pending = [] \<rparr>"

subsection \<open>Fight identifiers\<close>

text \<open>
  The template literal \<open>`fight_${timestamp}`\<close>: the decimal numeral of an integer
  timestamp, with a minus sign when negative.
\<close>

fun decimal :: "nat \<Rightarrow> string" where
  "decimal n = (if n < 10 then [''0123456789'' ! n]
                else decimal (n div 10) @ [''0123456789'' ! (n mod 10)])"

declare decimal.simps [simp del]

definition number_to_string :: "int \<Rightarrow> string" where
  "number_to_string i = (if i < 0 then ''-'' @ decimal (nat (- i)) else decimal (nat i))"

definition fight_id :: "int \<Rightarrow> string" where
  "fight_id timestamp = ''fight_'' @ number_to_string timestamp"

section \<open>Operations of the manager\<close>

subsection \<open>Boundary decision\<close>

text \<open>The constant \<open>shouldStartNewFight\<close> of \<open>recordActivity\<close>.\<close>

definition shouldStartNewFight :: "'u manager \<Rightarrow> int \<Rightarrow> bool" where
  "shouldStartNewFight m timestamp \<longleftrightarrow>
     currentFightId m = None \<or>
     (lastActivityTime m > 0 \<and> timestamp - lastActivityTime m > fightTimeout m)"

subsection \<open>Aggregation and finalization\<close>

definition updateCurrentFightStats :: "int \<Rightarrow> string \<Rightarrow> int \<Rightarrow> 'u manager \<Rightarrow> 'u manager" where
  "updateCurrentFightStats now activityType val m =
     (case currentFightId m of
        None \<Rightarrow> m
      | Some cid \<Rightarrow>
          (case map_of (fights m) cid of
             None \<Rightarrow> m
           | Some fight \<Rightarrow>
               let fight1 =
                     (if activityType = ''damage''
                        then fight\<lparr>totalDamage := totalDamage fight + val\<rparr>
                      else if activityType = ''healing''
                        then fight\<lparr>totalHealing := totalHealing fight + val\<rparr>
                      else fight);
                   fight2 = fight1\<lparr>endTime := Some now\<rparr>;
                   fight3 = fight2\<lparr>duration := now - startTime fight2\<rparr>
               in m\<lparr>fights := AList.update cid fight3 (fights m)\<rparr>))"

definition finalizeCurrentFight :: "int \<Rightarrow> 'u manager \<Rightarrow> 'u manager" where
  "finalizeCurrentFight now m =
     (case currentFightId m of
        None \<Rightarrow> m
      | Some cid \<Rightarrow>
          (case map_of (fights m) cid of
             None \<Rightarrow> m
           | Some fight \<Rightarrow>
               let fight1 = fight\<lparr>endTime := Some now\<rparr>;
                   fight2 = fight1\<lparr>duration := now - startTime fight1\<rparr>;
                   fight3 = fight2\<lparr>isActive := False\<rparr>;
                   c = cumulativeStats m;
                   c' = c\<lparr>cTotalDamage := cTotalDamage c + totalDamage fight3,
                          cTotalHealing := cTotalHealing c + totalHealing fight3,
                          cTotalFights := cTotalFights c + 1,
                          cTotalDuration := cTotalDuration c + duration fight3\<rparr>
               in m\<lparr>fights := AList.update cid fight3 (fights m), cumulativeStats := c'\<rparr>))"

subsection \<open>Starting a fight\<close>

text \<open>
  Modelled from the spec: the class \<open>Lock\<close> (\<open>models/Lock.js\<close>) is not among the sources.
  The spec calls it a single mutual-exclusion coordination lock, so the suspended calls
  of \<open>startNewFight\<close> are resumed one at a time, in the order in which they were made.

  \<open>startNewFight\<close> is the call itself: it runs up to the \<open>await\<close> and suspends.
  \<open>startNewFight_body\<close> is the code between acquiring and releasing the lock; it
  contains no further \<open>await\<close>, so it runs without interruption. \<open>resume\<close> lets the
  oldest suspended call run its body.
\<close>

definition startNewFight :: "int \<Rightarrow> 'u manager \<Rightarrow> 'u manager" where
  "startNewFight timestamp m = m\<lparr>pending := pending m @ [timestamp]\<rparr>"

definition startNewFight_body :: "int \<Rightarrow> int \<Rightarrow> 'u manager \<Rightarrow> 'u manager" where
  "startNewFight_body now timestamp m =
     (let m1 = (if currentFightId m \<noteq> None then finalizeCurrentFight now m else m);
          m2 = m1\<lparr>currentFightId := None, currentFightStartTime := None\<rparr>;
          m3 = m2\<lparr>currentFightId := Some (fight_id timestamp),
                  currentFightStartTime := Some timestamp\<rparr>
      in m3\<lparr>fights :=
             AList.update (fight_id timestamp)
               \<lparr> fightId = fight_id timestamp, startTime = timestamp, endTime = None,
                 duration = 0, totalDamage = 0, totalHealing = 0, userStats = JsMap,
                 isActive = True \<rparr>
               (fights m3)\<rparr>)"

definition resume :: "int \<Rightarrow> 'u manager \<Rightarrow> 'u manager" where
  "resume now m =
     (case pending m of
        [] \<Rightarrow> m
      | timestamp # rest \<Rightarrow> startNewFight_body now timestamp (m\<lparr>pending := rest\<rparr>))"

definition forceStartNewFight :: "int \<Rightarrow> 'u manager \<Rightarrow> 'u manager" where
  "forceStartNewFight timestamp m = startNewFight timestamp m"

subsection \<open>The hot path and the watchdog\<close>

definition recordActivity :: "int \<Rightarrow> string \<Rightarrow> int \<Rightarrow> int \<Rightarrow> 'u manager \<Rightarrow> 'u manager" where
  "recordActivity timestamp activityType val now m =
     (let m1 = (if shouldStartNewFight m timestamp then startNewFight timestamp m else m);
          m2 = m1\<lparr>lastActivityTime := timestamp\<rparr>
      in if currentFightId m2 \<noteq> None
           then updateCurrentFightStats now activityType val m2
         else m2)"

definition checkForInactivity :: "int \<Rightarrow> int \<Rightarrow> 'u manager \<Rightarrow> 'u manager" where
  "checkForInactivity currentTime now m =
     (if currentFightId m \<noteq> None \<and> lastActivityTime m > 0
        then (if currentTime - lastActivityTime m > fightTimeout m
                then (finalizeCurrentFight now m)
                       \<lparr>currentFightId := None, currentFightStartTime := None\<rparr>
              else m)
      else m)"

subsection \<open>Queries, clearing and the timeout\<close>

definition getCurrentFight :: "'u manager \<Rightarrow> 'u fight option" where
  "getCurrentFight m =
     (case currentFightId m of None \<Rightarrow> None | Some cid \<Rightarrow> map_of (fights m) cid)"

definition getFightData :: "string \<Rightarrow> 'u manager \<Rightarrow> 'u fight option" where
  "getFightData fid m = map_of (fights m) fid"

record completedFight =
  cfId :: string
  cfStartTime :: int
  cfEndTime :: "int option"
  cfDuration :: int
  cfTotalDamage :: int
  cfTotalHealing :: int
  cfUserCount :: nat

text \<open>\<open>Object.keys\<close> of an empty \<open>Map\<close> is empty.\<close>

fun object_keys :: "'u userStats \<Rightarrow> string list" where
  "object_keys JsMap = []"
| "object_keys (JsObject kvs) = map fst kvs"

text \<open>\<open>Object.entries\<close> of an empty \<open>Map\<close> is empty as well.\<close>

fun object_entries :: "'u userStats \<Rightarrow> (string \<times> 'u) list" where
  "object_entries JsMap = []"
| "object_entries (JsObject kvs) = kvs"

text \<open>
  \<open>getAllFights\<close> sorts by start time, newest first; \<open>Array.prototype.sort\<close> is stable,
  as \<open>sort_key\<close> is.
\<close>

definition getAllFights :: "'u manager \<Rightarrow> completedFight list" where
  "getAllFights m =
     sort_key (\<lambda>c. - cfStartTime c)
       (map (\<lambda>(k, fight).
               \<lparr> cfId = fightId fight, cfStartTime = startTime fight, cfEndTime = endTime fight,
                 cfDuration = duration fight, cfTotalDamage = totalDamage fight,
                 cfTotalHealing = totalHealing fight,
                 cfUserCount = length (object_keys (userStats fight)) \<rparr>)
            (filter (\<lambda>(k, fight). \<not> isActive fight) (fights m)))"

record 'u cumulativeReport = cumulative +
  currentFight :: "'u fight option"

text \<open>
  \<open>getCumulativeStats\<close>: the cumulative counters, with \<open>totalFights\<close> overwritten by the
  size of the store.
\<close>

definition getCumulativeStats :: "'u manager \<Rightarrow> 'u cumulativeReport" where
  "getCumulativeStats m =
     \<lparr> cTotalDamage = cTotalDamage (cumulativeStats m),
       cTotalHealing = cTotalHealing (cumulativeStats m),
       cTotalFights = int (length (fights m)),
       cTotalDuration = cTotalDuration (cumulativeStats m),
       cStartTime = cStartTime (cumulativeStats m),
       currentFight = getCurrentFight m \<rparr>"

definition clearHistory :: "int \<Rightarrow> 'u manager \<Rightarrow> 'u manager" where
  "clearHistory now m =
     m\<lparr> fights := [], currentFightId := None, currentFightStartTime := None,
        lastActivityTime := 0,
        cumulativeStats := \<lparr> cTotalDamage = 0, cTotalHealing = 0, cTotalFights = 0,
                              cTotalDuration = 0, cStartTime = Some now \<rparr> \<rparr>"

definition updateFightTimeout :: "int \<Rightarrow> 'u manager \<Rightarrow> 'u manager" where
  "updateFightTimeout timeoutMs m = m\<lparr>fightTimeout := timeoutMs\<rparr>"

subsection \<open>Persistence\<close>

text \<open>
  The file \<open>fight_history.json\<close>, as \<open>JSON.parse\<close> reads it. \<open>JSON.stringify\<close> writes
  a \<open>Map\<close> as \<open>{}\<close>, since a \<open>Map\<close> has no enumerable properties of its own, and
  \<open>JSON.parse\<close> reads \<open>{}\<close> as a plain object; integers, strings, booleans and
  \<open>null\<close> are read back as written, and so are the opaque summaries, which are JSON data.
\<close>

record 'u historyData =
  hFights :: "(string \<times> 'u fight) list option"
  hCumulativeStats :: "cumulative option"
  lastSaved :: int

definition json_userStats :: "'u userStats \<Rightarrow> 'u userStats" where
  "json_userStats us = (case us of JsMap \<Rightarrow> JsObject [] | JsObject kvs \<Rightarrow> JsObject kvs)"

text \<open>
  \<open>saveFightHistory\<close> gives the content of the file after a write that succeeded (a
  failed write is logged and leaves file and manager as they were). In
  \<open>fight.userStats || {}\<close> the left operand is a \<open>Map\<close> or an object, hence truthy.
\<close>

definition saveFightHistory :: "int \<Rightarrow> 'u manager \<Rightarrow> 'u historyData" where
  "saveFightHistory now m =
     \<lparr> hFights =
         Some (map (\<lambda>(k, fight). (k, fight\<lparr>userStats := json_userStats (userStats fight)\<rparr>))
                 (fights m)),
       hCumulativeStats = Some (cumulativeStats m),
       lastSaved = now \<rparr>"

text \<open>
  \<open>loadFightHistory\<close> takes the file: \<open>None\<close> when reading or parsing throws, which the
  \<open>catch\<close> swallows before anything has been assigned.
\<close>

definition loadFightHistory :: "'u historyData option \<Rightarrow> 'u manager \<Rightarrow> 'u manager" where
  "loadFightHistory file m =
     (case file of
        None \<Rightarrow> m
      | Some historyData \<Rightarrow>
          m\<lparr> fights :=
               (case hFights historyData of
                  None \<Rightarrow> []
                | Some entries \<Rightarrow> fold (\<lambda>(k, fight). AList.update k fight) entries []),
             cumulativeStats :=
               (case hCumulativeStats historyData of
                  Some c \<Rightarrow> c
                | None \<Rightarrow> \<lparr> cTotalDamage = 0, cTotalHealing = 0, cTotalFights = 0,
                             cTotalDuration = 0, cStartTime = None \<rparr>) \<rparr>)"

section \<open>The route \<open>POST /fight/timeout\<close>\<close>

text \<open>
  The field \<open>timeout\<close> of the request body is a number or something else. The handler
  answers status 400 without calling the manager when the value is not a number or lies
  outside 5000 .. 60000.
\<close>

datatype jsvalue = JsNumber int | JsNotANumberType

datatype error = InvalidTimeoutValue

text \<open>
  Modelled from the spec: \<open>userDataManager.updateFightTimeout\<close>
  (\<open>services/UserDataManager.js\<close>) is not among the sources; the spec has a single
  \<open>updateFightTimeout\<close> that updates \<open>fightTimeoutMs\<close>, so the call is taken to reach
  \<open>updateFightTimeout\<close> of the fight history manager.
\<close>

definition post_fight_timeout :: "jsvalue \<Rightarrow> 'u manager \<Rightarrow> error + 'u manager" where
  "post_fight_timeout timeout m =
     (case timeout of
        JsNotANumberType \<Rightarrow> Inl InvalidTimeoutValue
      | JsNumber t \<Rightarrow>
          if t < 5000 \<or> t > 60000 then Inl InvalidTimeoutValue
          else Inr (updateFightTimeout t m))"

text \<open>The manager after the request: a rejected request leaves it as it was.\<close>

definition after_post_fight_timeout :: "jsvalue \<Rightarrow> 'u manager \<Rightarrow> 'u manager" where
  "after_post_fight_timeout timeout m =
     (case post_fight_timeout timeout m of Inl e \<Rightarrow> m | Inr m' \<Rightarrow> m')"

section \<open>Sequences of operations\<close>

text \<open>
  An observer sees the manager between the synchronous runs of the event loop: after a call
  of \<open>recordActivity\<close>, \<open>checkForInactivity\<close>, \<open>forceStartNewFight\<close> or
  \<open>clearHistory\<close> has returned, or after a suspended \<open>startNewFight\<close> has run its body.
  Every interleaving the event loop can produce is a list of these steps.
\<close>

datatype op =
    RecordActivity int string int int
  | Resume int
  | CheckForInactivity int int
  | ForceStartNewFight int
  | ClearHistory int

fun step :: "op \<Rightarrow> 'u manager \<Rightarrow> 'u manager" where
  "step (RecordActivity timestamp activityType val now) m =
     recordActivity timestamp activityType val now m"
| "step (Resume now) m = resume now m"
| "step (CheckForInactivity currentTime now) m = checkForInactivity currentTime now m"
| "step (ForceStartNewFight timestamp) m = forceStartNewFight timestamp m"
| "step (ClearHistory now) m = clearHistory now m"

definition run :: "op list \<Rightarrow> 'u manager \<Rightarrow> 'u manager" where
  "run ops m = fold step ops m"

text \<open>The encounters of the store that are marked active.\<close>

definition activeFights :: "'u manager \<Rightarrow> (string \<times> 'u fight) list" where
  "activeFights m = filter (\<lambda>(k, fight). isActive fight) (fights m)"

text \<open>
  Every active encounter of the store is the current one, and no two entries of the store
  share a key (which a JavaScript \<open>Map\<close> guarantees).
\<close>

definition activeIsCurrent :: "'u manager \<Rightarrow> bool" where
  "activeIsCurrent m \<longleftrightarrow>
     distinct (map fst (fights m)) \<and>
     (\<forall>(k, fight) \<in> set (fights m). isActive fight \<longrightarrow> currentFightId m = Some k)"

definition noneActive :: "'u manager \<Rightarrow> bool" where
  "noneActive m \<longleftrightarrow>
     distinct (map fst (fights m)) \<and> (\<forall>(k, fight) \<in> set (fights m). \<not> isActive fight)"

text \<open>The current encounter, when it is in the store, is marked active.\<close>

definition currentIsActive :: "'u manager \<Rightarrow> bool" where
  "currentIsActive m =
     (case currentFightId m of
        None \<Rightarrow> True
      | Some cid \<Rightarrow>
          (case map_of (fights m) cid of None \<Rightarrow> True | Some fight \<Rightarrow> isActive fight))"

text \<open>
  A consistent manager: \<open>totalFights\<close> counts the encounters that \<open>getAllFights\<close>
  lists, which are those with \<open>isActive == false\<close>, and the current encounter is not
  among them. Encounters that are active without being the current one, as a loaded
  snapshot may hold, do not matter.
\<close>

definition consistent :: "'u manager \<Rightarrow> bool" where
  "consistent m \<longleftrightarrow>
     currentIsActive m \<and>
     cTotalFights (cumulativeStats m) = int (length (getAllFights m))"

text \<open>
  The fields of an encounter, with \<open>userStats\<close> read as the mapping from participant to
  summary that it holds: the empty \<open>Map\<close> of a new fight and the empty object \<open>{}\<close> are
  both the empty mapping. Nothing in the manager tells them apart: it reads \<open>userStats\<close>
  through \<open>Object.keys\<close>, \<open>Object.entries\<close> and \<open>JSON.stringify\<close> only.
\<close>

definition encounter_fields ::
  "'u fight \<Rightarrow> string \<times> int \<times> int option \<times> int \<times> int \<times> int \<times> (string \<times> 'u) list \<times> bool" where
  "encounter_fields fight =
     (fightId fight, startTime fight, endTime fight, duration fight, totalDamage fight,
      totalHealing fight, object_entries (userStats fight), isActive fight)"

text \<open>
  \<open>fresh_ids ops m\<close>: along the run of \<open>ops\<close> from \<open>m\<close>, every fight that is started
  gets an id that is not yet a key of the store.
\<close>

fun fresh_ids :: "op list \<Rightarrow> 'u manager \<Rightarrow> bool" where
  "fresh_ids [] m = True"
| "fresh_ids (Resume now # ops) m =
     ((case pending m of
         [] \<Rightarrow> True
       | timestamp # rest \<Rightarrow> fight_id timestamp \<notin> set (map fst (fights m)))
      \<and> fresh_ids ops (step (Resume now) m))"
| "fresh_ids (op # ops) m = fresh_ids ops (step op m)"

text \<open>
  A call of \<open>recordActivity\<close> starts a new encounter when it calls \<open>startNewFight\<close> with
  its timestamp.
\<close>

definition startsNewEncounter :: "int \<Rightarrow> string \<Rightarrow> int \<Rightarrow> int \<Rightarrow> 'u manager \<Rightarrow> bool" where
  "startsNewEncounter timestamp activityType val now m \<longleftrightarrow>
     pending (recordActivity timestamp activityType val now m) = pending m @ [timestamp]"

subsection \<open>Example runs\<close>

text \<open>
  A manager with a current encounter: an activity at 1000 starts \<open>fight_1000\<close>, a second
  one at 2000 adds 50 damage to it.
\<close>

definition example_manager :: "unit manager" where
  "example_manager =
     run [RecordActivity 1000 ''damage'' 100 1000, Resume 1001,
          RecordActivity 2000 ''damage'' 50 2001]
       (newFightHistoryManager 0)"

text \<open>
  The next process: a new manager that loads the file which \<open>example_manager\<close> saved at
  time 5000.
\<close>

definition restored_manager :: "unit manager" where
  "restored_manager =
     loadFightHistory (Some (saveFightHistory 5000 example_manager)) (newFightHistoryManager 9000)"

text \<open>
  The scenario of three activities with the default timeout; every call is made from a task
  of its own, so a suspended \<open>startNewFight\<close> runs before the next call. The last four
  parameters are the clock at the steps that read it.
\<close>

definition scenario1 :: "int \<Rightarrow> op list" where
  "scenario1 n1 = [RecordActivity 0 ''damage'' 100 0, Resume n1]"

definition scenario2 :: "int \<Rightarrow> int \<Rightarrow> op list" where
  "scenario2 n1 n2 = scenario1 n1 @ [RecordActivity 5000 ''damage'' 50 n2]"

definition scenario3 :: "int \<Rightarrow> int \<Rightarrow> int \<Rightarrow> int \<Rightarrow> op list" where
  "scenario3 n1 n2 n3 n4 =
     scenario2 n1 n2 @ [RecordActivity 20001 ''healing'' 30 n3, Resume n4]"

section \<open>Basic facts\<close>

lemmas op_defs = recordActivity_def shouldStartNewFight_def startNewFight_def resume_def
  startNewFight_body_def updateCurrentFightStats_def finalizeCurrentFight_def
  checkForInactivity_def forceStartNewFight_def clearHistory_def

lemma fight_id_0: "fight_id 0 = ''fight_0''"
  by (simp add: fight_id_def number_to_string_def decimal.simps)

lemma fight_id_5: "fight_id 5 = ''fight_5''"
  by (simp add: fight_id_def number_to_string_def decimal.simps)

lemma fight_id_1000: "fight_id 1000 = ''fight_1000''"
  by (simp add: fight_id_def number_to_string_def decimal.simps)

lemma fight_id_10000: "fight_id 10000 = ''fight_10000''"
  by (simp add: fight_id_def number_to_string_def decimal.simps)

lemma fight_id_20000: "fight_id 20000 = ''fight_20000''"
  by (simp add: fight_id_def number_to_string_def decimal.simps)

lemma fight_id_20001: "fight_id 20001 = ''fight_20001''"
  by (simp add: fight_id_def number_to_string_def decimal.simps)

lemma example_manager_eq:
  "example_manager =
     \<lparr> fights = [(''fight_1000'',
                  \<lparr> fightId = ''fight_1000'', startTime = 1000, endTime = Some 2001,
                    duration = 1001, totalDamage = 50, totalHealing = 0, userStats = JsMap,
                    isActive = True \<rparr>)],
       currentFightId = Some ''fight_1000'', currentFightStartTime = Some 1000,
       lastActivityTime = 2000, fightTimeout = 15000,
       cumulativeStats = \<lparr> cTotalDamage = 0, cTotalHealing = 0, cTotalFights = 0,
                           cTotalDuration = 0, cStartTime = Some 0 \<rparr>,
       pending = [] \<rparr>"
  by (simp add: example_manager_def run_def newFightHistoryManager_def op_defs fight_id_1000)

lemma restored_manager_eq:
  "restored_manager =
     \<lparr> fights = [(''fight_1000'',
                  \<lparr> fightId = ''fight_1000'', startTime = 1000, endTime = Some 2001,
                    duration = 1001, totalDamage = 50, totalHealing = 0,
                    userStats = JsObject [], isActive = True \<rparr>)],
       currentFightId = None, currentFightStartTime = None,
       lastActivityTime = 0, fightTimeout = 15000,
       cumulativeStats = \<lparr> cTotalDamage = 0, cTotalHealing = 0, cTotalFights = 0,
                           cTotalDuration = 0, cStartTime = Some 0 \<rparr>,
       pending = [] \<rparr>"
  by (simp add: restored_manager_def example_manager_eq loadFightHistory_def
        saveFightHistory_def json_userStats_def newFightHistoryManager_def)

subsection \<open>Association lists\<close>

lemma set_update_distinct:
  "distinct (map fst al) \<Longrightarrow>
   set (AList.update k v al) = insert (k, v) {p \<in> set al. fst p \<noteq> k}"
  by (induction al) (auto simp: rev_image_eqI)

lemma keys_update_present:
  "map_of al k = Some v \<Longrightarrow> map fst (AList.update k v' al) = map fst al"
  by (induction al) (auto split: if_splits)

lemma update_absent: "k \<notin> set (map fst al) \<Longrightarrow> AList.update k v al = al @ [(k, v)]"
  by (induction al) auto

lemma count_update_same:
  "map_of al k = Some v \<Longrightarrow> P v = P v' \<Longrightarrow>
   length (filter (\<lambda>(k, v). P v) (AList.update k v' al)) = length (filter (\<lambda>(k, v). P v) al)"
  by (induction al) (auto split: if_splits)

lemma count_update_new:
  "map_of al k = Some v \<Longrightarrow> \<not> P v \<Longrightarrow> P v' \<Longrightarrow>
   length (filter (\<lambda>(k, v). P v) (AList.update k v' al)) =
     Suc (length (filter (\<lambda>(k, v). P v) al))"
  by (induction al) (auto split: if_splits)

lemma at_most_one_marked:
  "distinct (map fst al) \<Longrightarrow> \<forall>(k, v) \<in> set al. P v \<longrightarrow> k = c \<Longrightarrow>
   length (filter (\<lambda>(k, v). P v) al) \<le> 1"
proof (induction al)
  case Nil
  then show ?case by simp
next
  case (Cons p al)
  obtain k v where p: "p = (k, v)" by (cases p)
  show ?case
  proof (cases "P v")
    case True
    with Cons.prems p have kc: "k = c" by simp
    have "filter (\<lambda>(k, v). P v) al = []"
    proof (rule ccontr)
      assume "filter (\<lambda>(k, v). P v) al \<noteq> []"
      then obtain q where q: "q \<in> set al" "case q of (k, v) \<Rightarrow> P v"
        by (auto simp: filter_empty_conv)
      with Cons.prems(2) have "fst q = c" by (cases q) auto
      with q(1) kc Cons.prems(1) p show False by (auto simp: rev_image_eqI)
    qed
    with p show ?thesis by simp
  next
    case False
    with Cons p show ?thesis by simp
  qed
qed

lemma fold_update_distinct:
  "distinct (map fst (acc @ entries)) \<Longrightarrow>
   fold (\<lambda>(k, v). AList.update k v) entries acc = acc @ entries"
proof (induction entries arbitrary: acc)
  case Nil
  then show ?case by simp
next
  case (Cons e entries)
  obtain k v where e: "e = (k, v)" by (cases e)
  from Cons.prems e have "k \<notin> set (map fst acc)" by auto
  then have "AList.update k v acc = acc @ [(k, v)]" by (rule update_absent)
  moreover from Cons.prems e have "distinct (map fst ((acc @ [(k, v)]) @ entries))" by simp
  ultimately show ?case using Cons.IH [of "acc @ [(k, v)]"] e by simp
qed

subsection \<open>What the operations leave alone\<close>

lemma pending_updateCurrentFightStats [simp]:
  "pending (updateCurrentFightStats now activityType val m) = pending m"
  by (simp add: updateCurrentFightStats_def Let_def split: option.splits)

lemma currentFightId_updateCurrentFightStats [simp]:
  "currentFightId (updateCurrentFightStats now activityType val m) = currentFightId m"
  by (simp add: updateCurrentFightStats_def Let_def split: option.splits)

lemma cumulativeStats_updateCurrentFightStats [simp]:
  "cumulativeStats (updateCurrentFightStats now activityType val m) = cumulativeStats m"
  by (simp add: updateCurrentFightStats_def Let_def split: option.splits)

lemma keys_updateCurrentFightStats [simp]:
  "map fst (fights (updateCurrentFightStats now activityType val m)) = map fst (fights m)"
  by (simp add: updateCurrentFightStats_def Let_def keys_update_present split: option.splits)

lemma pending_recordActivity:
  "pending (recordActivity timestamp activityType val now m) =
     (if shouldStartNewFight m timestamp then pending m @ [timestamp] else pending m)"
  by (simp add: recordActivity_def startNewFight_def Let_def)

lemma currentFightId_recordActivity [simp]:
  "currentFightId (recordActivity timestamp activityType val now m) = currentFightId m"
  by (simp add: recordActivity_def startNewFight_def Let_def)

lemma keys_recordActivity [simp]:
  "map fst (fights (recordActivity timestamp activityType val now m)) = map fst (fights m)"
  by (simp add: recordActivity_def startNewFight_def Let_def)

lemma currentFightId_finalizeCurrentFight [simp]:
  "currentFightId (finalizeCurrentFight now m) = currentFightId m"
  by (simp add: finalizeCurrentFight_def Let_def split: option.splits)

lemma finalizeCurrentFight_None [simp]:
  "currentFightId m = None \<Longrightarrow> finalizeCurrentFight now m = m"
  by (simp add: finalizeCurrentFight_def)

lemma keys_finalizeCurrentFight [simp]:
  "map fst (fights (finalizeCurrentFight now m)) = map fst (fights m)"
  by (simp add: finalizeCurrentFight_def Let_def keys_update_present split: option.splits)

lemma getCurrentFight_resume:
  "pending m = timestamp # rest \<Longrightarrow>
   getCurrentFight (resume now m) =
     Some \<lparr> fightId = fight_id timestamp, startTime = timestamp, endTime = None,
            duration = 0, totalDamage = 0, totalHealing = 0, userStats = JsMap,
            isActive = True \<rparr>"
  by (simp add: resume_def startNewFight_body_def Let_def getCurrentFight_def update_conv')

lemma length_getAllFights:
  "length (getAllFights m) = length (filter (\<lambda>(k, fight). \<not> isActive fight) (fights m))"
  by (simp add: getAllFights_def)

subsection \<open>Every active encounter is the current one\<close>

lemma activeIsCurrent_length: "activeIsCurrent m \<Longrightarrow> length (activeFights m) \<le> 1"
  unfolding activeIsCurrent_def activeFights_def
  using at_most_one_marked [of "fights m" isActive "the (currentFightId m)"] by fastforce

lemma activeIsCurrent_pending [simp]:
  "activeIsCurrent (m\<lparr>pending := p\<rparr>) = activeIsCurrent m"
  by (simp add: activeIsCurrent_def)

lemma activeIsCurrent_lastActivityTime [simp]:
  "activeIsCurrent (m\<lparr>lastActivityTime := t\<rparr>) = activeIsCurrent m"
  by (simp add: activeIsCurrent_def)

lemma activeIsCurrent_updateCurrentFightStats:
  "activeIsCurrent m \<Longrightarrow> activeIsCurrent (updateCurrentFightStats now activityType val m)"
  unfolding activeIsCurrent_def updateCurrentFightStats_def
  by (auto simp: Let_def distinct_update set_update_distinct split: option.splits)

lemma noneActive_finalizeCurrentFight:
  "activeIsCurrent m \<Longrightarrow> noneActive (finalizeCurrentFight now m)"
  unfolding activeIsCurrent_def noneActive_def finalizeCurrentFight_def
  by (auto simp: Let_def distinct_update set_update_distinct split: option.splits)

lemma activeIsCurrent_cleared:
  assumes "activeIsCurrent m"
  shows "activeIsCurrent
           ((finalizeCurrentFight now m)\<lparr>currentFightId := None, currentFightStartTime := None\<rparr>)"
proof -
  have "noneActive (finalizeCurrentFight now m)"
    using assms by (rule noneActive_finalizeCurrentFight)
  then show ?thesis by (auto simp: noneActive_def activeIsCurrent_def)
qed

lemma activeIsCurrent_startNewFight_body:
  assumes "activeIsCurrent m"
  shows "activeIsCurrent (startNewFight_body now timestamp m)"
proof -
  have "noneActive (finalizeCurrentFight now m)"
    using assms by (rule noneActive_finalizeCurrentFight)
  moreover have "(if currentFightId m \<noteq> None then finalizeCurrentFight now m else m) =
      finalizeCurrentFight now m"
    by simp
  ultimately show ?thesis
    unfolding startNewFight_body_def activeIsCurrent_def noneActive_def Let_def
    by (auto simp: distinct_update set_update_distinct simp del: finalizeCurrentFight_None)
qed

lemma activeIsCurrent_step: "activeIsCurrent m \<Longrightarrow> activeIsCurrent (step op m)"
proof (cases op)
  case (RecordActivity timestamp activityType val now)
  assume "activeIsCurrent m"
  then show ?thesis
    by (simp add: RecordActivity recordActivity_def startNewFight_def Let_def
          activeIsCurrent_updateCurrentFightStats)
next
  case (Resume now)
  assume "activeIsCurrent m"
  then show ?thesis
    by (simp add: Resume resume_def activeIsCurrent_startNewFight_body split: list.splits)
next
  case (CheckForInactivity currentTime now)
  assume "activeIsCurrent m"
  then show ?thesis
    by (simp add: CheckForInactivity checkForInactivity_def activeIsCurrent_cleared)
next
  case (ForceStartNewFight timestamp)
  assume "activeIsCurrent m"
  then show ?thesis by (simp add: ForceStartNewFight forceStartNewFight_def startNewFight_def)
next
  case (ClearHistory now)
  show ?thesis by (simp add: ClearHistory clearHistory_def activeIsCurrent_def)
qed

lemma activeIsCurrent_run: "activeIsCurrent m \<Longrightarrow> activeIsCurrent (run ops m)"
  unfolding run_def by (induction ops arbitrary: m) (simp_all add: activeIsCurrent_step)

subsection \<open>Consistent managers\<close>

lemma consistent_pending [simp]: "consistent (m\<lparr>pending := p\<rparr>) = consistent m"
  by (simp add: consistent_def currentIsActive_def length_getAllFights split: option.splits)

lemma consistent_lastActivityTime [simp]:
  "consistent (m\<lparr>lastActivityTime := t\<rparr>) = consistent m"
  by (simp add: consistent_def currentIsActive_def length_getAllFights split: option.splits)

lemma consistent_updateCurrentFightStats:
  assumes "consistent m"
  shows "consistent (updateCurrentFightStats now activityType val m)"
proof -
  have b: "currentIsActive (updateCurrentFightStats now activityType val m)"
    using assms
    by (auto simp: consistent_def currentIsActive_def updateCurrentFightStats_def Let_def
          update_conv' split: option.splits)
  have c: "length (getAllFights (updateCurrentFightStats now activityType val m)) =
      length (getAllFights m)"
    by (auto simp: length_getAllFights updateCurrentFightStats_def Let_def count_update_same
          split: option.splits)
  show ?thesis using assms b c by (simp add: consistent_def)
qed

lemma count_finalizeCurrentFight:
  assumes "consistent m"
  shows "cTotalFights (cumulativeStats (finalizeCurrentFight now m)) =
           int (length (getAllFights (finalizeCurrentFight now m)))"
proof (cases "currentFightId m")
  case None
  with assms show ?thesis by (simp add: consistent_def)
next
  case (Some cid)
  show ?thesis
  proof (cases "map_of (fights m) cid")
    case None
    with Some assms show ?thesis by (simp add: consistent_def finalizeCurrentFight_def)
  next
    case (Some fight)
    with \<open>currentFightId m = Some cid\<close> assms have act: "isActive fight"
      by (simp add: consistent_def currentIsActive_def)
    have "length (filter (\<lambda>(k, f). \<not> isActive f)
            (AList.update cid
               (fight\<lparr>endTime := Some now, duration := now - startTime fight,
                       isActive := False\<rparr>) (fights m))) =
          Suc (length (filter (\<lambda>(k, f). \<not> isActive f) (fights m)))"
      using Some act by (intro count_update_new [where v = fight]) simp_all
    with Some \<open>currentFightId m = Some cid\<close> assms show ?thesis
      by (simp add: consistent_def finalizeCurrentFight_def Let_def length_getAllFights)
  qed
qed

lemma consistent_startNewFight_body:
  assumes "consistent m" and fresh: "fight_id timestamp \<notin> set (map fst (fights m))"
  shows "consistent (startNewFight_body now timestamp m)"
proof -
  let ?m1 = "finalizeCurrentFight now m"
  let ?new = "\<lparr> fightId = fight_id timestamp, startTime = timestamp, endTime = None,
                 duration = 0, totalDamage = 0, totalHealing = 0,
                 userStats = (JsMap :: 'a userStats), isActive = True \<rparr>"
  have m1: "(if currentFightId m \<noteq> None then finalizeCurrentFight now m else m) = ?m1"
    by simp
  have "fight_id timestamp \<notin> set (map fst (fights ?m1))"
    using fresh by simp
  then have upd: "AList.update (fight_id timestamp) ?new (fights ?m1) =
      fights ?m1 @ [(fight_id timestamp, ?new)]"
    by (rule update_absent)
  have b: "currentIsActive (startNewFight_body now timestamp m)"
    by (simp add: currentIsActive_def startNewFight_body_def Let_def update_conv')
  have c: "cTotalFights (cumulativeStats (startNewFight_body now timestamp m)) =
             int (length (getAllFights (startNewFight_body now timestamp m)))"
    using count_finalizeCurrentFight [OF assms(1), of now]
    unfolding startNewFight_body_def Let_def m1
    by (simp add: upd length_getAllFights del: finalizeCurrentFight_None)
  show ?thesis using b c by (simp add: consistent_def)
qed

lemma consistent_checkForInactivity:
  assumes "consistent m"
  shows "consistent (checkForInactivity currentTime now m)"
proof -
  let ?m' = "(finalizeCurrentFight now m)\<lparr>currentFightId := None, currentFightStartTime := None\<rparr>"
  have b: "currentIsActive ?m'" by (simp add: currentIsActive_def)
  have c: "cTotalFights (cumulativeStats ?m') = int (length (getAllFights ?m'))"
    using count_finalizeCurrentFight [OF assms, of now] by (simp add: length_getAllFights)
  have "consistent ?m'" using b c by (simp add: consistent_def)
  with assms show ?thesis by (simp add: checkForInactivity_def)
qed

lemma consistent_step:
  "consistent m \<Longrightarrow> fresh_ids (op # ops) m \<Longrightarrow> consistent (step op m)"
proof (cases op)
  case (RecordActivity timestamp activityType val now)
  assume "consistent m"
  then show ?thesis
    by (simp add: RecordActivity recordActivity_def startNewFight_def Let_def
          consistent_updateCurrentFightStats)
next
  case (Resume now)
  assume "consistent m" "fresh_ids (op # ops) m"
  then show ?thesis
    by (auto simp: Resume resume_def consistent_startNewFight_body split: list.splits)
next
  case (CheckForInactivity currentTime now)
  assume "consistent m"
  then show ?thesis by (simp add: CheckForInactivity consistent_checkForInactivity)
next
  case (ForceStartNewFight timestamp)
  assume "consistent m"
  then show ?thesis by (simp add: ForceStartNewFight forceStartNewFight_def startNewFight_def)
next
  case (ClearHistory now)
  show ?thesis
    by (simp add: ClearHistory clearHistory_def consistent_def currentIsActive_def
          length_getAllFights)
qed

lemma fresh_ids_tail: "fresh_ids (op # ops) m \<Longrightarrow> fresh_ids ops (step op m)"
  by (cases op) simp_all

lemma consistent_run: "consistent m \<Longrightarrow> fresh_ids ops m \<Longrightarrow> consistent (run ops m)"
proof (induction ops arbitrary: m)
  case Nil
  then show ?case by (simp add: run_def)
next
  case (Cons op ops)
  have "consistent (step op m)" using Cons.prems by (rule consistent_step)
  moreover have "fresh_ids ops (step op m)" using Cons.prems(2) by (rule fresh_ids_tail)
  ultimately have "consistent (run ops (step op m))" by (rule Cons.IH)
  then show ?case by (simp add: run_def)
qed

lemma consistent_new: "consistent (newFightHistoryManager now)"
  by (simp add: consistent_def currentIsActive_def newFightHistoryManager_def
        length_getAllFights)

lemma consistent_restored: "consistent restored_manager"
  by (simp add: consistent_def currentIsActive_def restored_manager_eq length_getAllFights)

section \<open>The claims\<close>

subsection \<open>C1: at most one active encounter\<close>

lemma two_marked:
  assumes "x \<in> set xs" and "y \<in> set xs" and "x \<noteq> y" and "P x" and "P y"
  shows "2 \<le> length (filter P xs)"
proof -
  have "{x, y} \<subseteq> set (filter P xs)" using assms by simp
  then have "card {x, y} \<le> card (set (filter P xs))" by (intro card_mono) simp_all
  moreover have "card {x, y} = 2" using assms(3) by simp
  moreover have "card (set (filter P xs)) \<le> length (filter P xs)" by (rule card_length)
  ultimately show ?thesis by simp
qed

lemma activeFights_after_load:
  assumes "currentFightId m = None" and "pending m = []" and "hFights file = Some entries"
    and "distinct (map fst entries)" and "map_of entries k = Some fight" and "isActive fight"
    and "k \<noteq> fight_id timestamp"
  shows "2 \<le> length (activeFights
            (run [RecordActivity timestamp activityType val now, Resume now']
               (loadFightHistory (Some file) m)))"
proof -
  let ?m = "loadFightHistory (Some file) m"
  let ?new = "\<lparr> fightId = fight_id timestamp, startTime = timestamp, endTime = None,
                 duration = 0, totalDamage = 0, totalHealing = 0,
                 userStats = (JsMap :: 'a userStats), isActive = True \<rparr>"
  let ?r = "run [RecordActivity timestamp activityType val now, Resume now'] ?m"
  have f: "fights ?m = entries"
    using assms(3,4) fold_update_distinct [of "[]" entries] by (simp add: loadFightHistory_def)
  have c: "currentFightId ?m = None" using assms(1) by (simp add: loadFightHistory_def)
  have p: "pending ?m = []" using assms(2) by (simp add: loadFightHistory_def)
  have rec: "recordActivity timestamp activityType val now ?m =
      ?m\<lparr>pending := [timestamp], lastActivityTime := timestamp\<rparr>"
    using c p by (simp add: recordActivity_def shouldStartNewFight_def startNewFight_def)
  have r: "fights ?r = AList.update (fight_id timestamp) ?new entries"
    using c f by (simp add: run_def rec resume_def startNewFight_body_def)
  have s: "set (fights ?r) = insert (fight_id timestamp, ?new)
      {p \<in> set entries. fst p \<noteq> fight_id timestamp}"
    unfolding r using assms(4) by (rule set_update_distinct)
  have "(k, fight) \<in> set entries" using assms(5) by (rule map_of_SomeD)
  then have a: "(k, fight) \<in> set (fights ?r)" using assms(7) by (simp add: s)
  have b: "(fight_id timestamp, ?new) \<in> set (fights ?r)" by (simp add: s)
  have "2 \<le> length (filter (\<lambda>(k, fight). isActive fight) (fights ?r))"
    using a b assms(6,7) by (intro two_marked [of "(k, fight)" _ "(fight_id timestamp, ?new)"]) auto
  then show ?thesis by (simp add: activeFights_def)
qed

text \<open>
  C1, as far as the code goes: from a manager whose active encounters are all the current
  one (a new manager, or one that loaded a snapshot without an active encounter), every
  sequence of calls of \<open>recordActivity\<close>, \<open>checkForInactivity\<close>,
  \<open>forceStartNewFight\<close> and \<open>clearHistory\<close>, with the suspended \<open>startNewFight\<close>
  calls resumed at any point, leaves at most one encounter with \<open>isActive == true\<close>; the
  statement holds after every step, since every prefix of a sequence is a sequence.
  After \<open>loadFightHistory\<close> has restored an active encounter into a manager without a
  current encounter, a call of \<open>recordActivity\<close> whose new encounter gets another id than
  the restored one leaves, once its \<open>startNewFight\<close> has run, at least two encounters with
  \<open>isActive == true\<close>.
\<close>

theorem single_active_invariant:
  "(activeIsCurrent m \<longrightarrow> length (activeFights (run ops m)) \<le> 1)
   \<and> (currentFightId m' = None \<and> pending m' = [] \<and> hFights file = Some entries \<and>
       distinct (map fst entries) \<and> map_of entries k = Some fight \<and> isActive fight \<and>
       k \<noteq> fight_id timestamp \<longrightarrow>
         2 \<le> length (activeFights
                 (run [RecordActivity timestamp activityType val now, Resume now']
                    (loadFightHistory (Some file) m'))))"
  using activeIsCurrent_length [OF activeIsCurrent_run, of m ops]
    activeFights_after_load [of "m'" "file" entries k fight timestamp activityType val now "now'"]
  by blast

theorem single_active_invariant_witness:
  "activeIsCurrent (newFightHistoryManager 0 :: unit manager) \<and>
   length (activeFights (run (scenario3 1 5000 20001 20002)
                           (newFightHistoryManager 0 :: unit manager))) \<le> 1 \<and>
   2 \<le> length (activeFights
           (run [RecordActivity 20000 ''healing'' 5 20000, Resume 20001]
              (loadFightHistory (Some (saveFightHistory 5000 example_manager))
                 (newFightHistoryManager 9000))))"
proof -
  let ?file = "saveFightHistory 5000 example_manager"
  let ?fight = "\<lparr> fightId = ''fight_1000'', startTime = 1000, endTime = Some 2001,
                   duration = 1001, totalDamage = 50, totalHealing = 0,
                   userStats = JsObject ([] :: (string \<times> unit) list), isActive = True \<rparr>"
  let ?entries = "[(''fight_1000'', ?fight)]"
  have a: "activeIsCurrent (newFightHistoryManager 0 :: unit manager)"
    by (simp add: activeIsCurrent_def newFightHistoryManager_def)
  have b: "currentFightId (newFightHistoryManager 9000 :: unit manager) = None \<and>
      pending (newFightHistoryManager 9000 :: unit manager) = [] \<and>
      hFights ?file = Some ?entries \<and> distinct (map fst ?entries) \<and>
      map_of ?entries ''fight_1000'' = Some ?fight \<and> isActive ?fight \<and>
      ''fight_1000'' \<noteq> fight_id 20000"
    by (simp add: newFightHistoryManager_def saveFightHistory_def example_manager_eq
          json_userStats_def fight_id_20000)
  show ?thesis
    using a b
      single_active_invariant [of "newFightHistoryManager 0 :: unit manager"
        "scenario3 1 5000 20001 20002" "newFightHistoryManager 9000 :: unit manager" ?file
        ?entries "''fight_1000''" ?fight 20000 "''healing''" 5 20000 20001]
    by blast
qed

text \<open>
  After \<open>loadFightHistory\<close> has restored an encounter that was saved active, the restored
  encounter is not the current one: the next activity starts a second active encounter.
\<close>

theorem single_active_after_load_counterexample:
  "length (activeFights
     (run [RecordActivity 10000 ''damage'' 10 10000, Resume 10001] restored_manager)) = 2"
  by (simp add: restored_manager_eq run_def op_defs activeFights_def fight_id_10000)

subsection \<open>C2: the boundary of the inactivity window\<close>

text \<open>
  C2: with a current encounter, \<open>lastActivityTime = T > 0\<close> and timeout \<open>W\<close>, a call of
  \<open>recordActivity\<close> at \<open>T + W + 1\<close> starts a new encounter, and a call at any timestamp
  up to \<open>T + W\<close> (timestamps before \<open>T\<close> included) does not: it leaves the suspended
  calls, the current encounter and the keys of the store as they were. Without a current
  encounter every call starts one. When the started call is resumed, the new encounter
  \<open>fight_<timestamp>\<close> is the current one.
\<close>

theorem boundary_correctness:
  "(currentFightId m \<noteq> None \<and> lastActivityTime m = T \<and> 0 < T \<and> fightTimeout m = W \<longrightarrow>
      startsNewEncounter (T + W + 1) activityType val now m \<and>
      (\<forall>timestamp \<le> T + W.
          \<not> startsNewEncounter timestamp activityType val now m \<and>
          pending (recordActivity timestamp activityType val now m) = pending m \<and>
          currentFightId (recordActivity timestamp activityType val now m) = currentFightId m \<and>
          map fst (fights (recordActivity timestamp activityType val now m)) =
            map fst (fights m)))
   \<and> (currentFightId m = None \<longrightarrow> startsNewEncounter ts activityType val now m)
   \<and> (pending m = [] \<and> startsNewEncounter ts activityType val now m \<longrightarrow>
        getCurrentFight (resume now' (recordActivity ts activityType val now m)) =
          Some \<lparr> fightId = fight_id ts, startTime = ts, endTime = None, duration = 0,
                 totalDamage = 0, totalHealing = 0, userStats = JsMap, isActive = True \<rparr>)"
proof (intro conjI impI)
  assume a: "currentFightId m \<noteq> None \<and> lastActivityTime m = T \<and> 0 < T \<and> fightTimeout m = W"
  then show "startsNewEncounter (T + W + 1) activityType val now m"
    by (simp add: startsNewEncounter_def pending_recordActivity shouldStartNewFight_def)
  from a show "\<forall>timestamp \<le> T + W.
          \<not> startsNewEncounter timestamp activityType val now m \<and>
          pending (recordActivity timestamp activityType val now m) = pending m \<and>
          currentFightId (recordActivity timestamp activityType val now m) = currentFightId m \<and>
          map fst (fights (recordActivity timestamp activityType val now m)) =
            map fst (fights m)"
    by (auto simp: startsNewEncounter_def pending_recordActivity shouldStartNewFight_def)
next
  assume "currentFightId m = None"
  then show "startsNewEncounter ts activityType val now m"
    by (simp add: startsNewEncounter_def pending_recordActivity shouldStartNewFight_def)
next
  assume "pending m = [] \<and> startsNewEncounter ts activityType val now m"
  then have "pending (recordActivity ts activityType val now m) = [ts]"
    by (simp add: startsNewEncounter_def)
  then show "getCurrentFight (resume now' (recordActivity ts activityType val now m)) =
          Some \<lparr> fightId = fight_id ts, startTime = ts, endTime = None, duration = 0,
                 totalDamage = 0, totalHealing = 0, userStats = JsMap, isActive = True \<rparr>"
    by (rule getCurrentFight_resume)
qed

theorem boundary_correctness_witness:
  "startsNewEncounter 17001 ''damage'' 1 17001 example_manager \<and>
   \<not> startsNewEncounter 17000 ''damage'' 1 17000 example_manager \<and>
   \<not> startsNewEncounter 500 ''damage'' 1 17000 example_manager \<and>
   startsNewEncounter 0 ''damage'' 100 0 (newFightHistoryManager 0 :: unit manager) \<and>
   getCurrentFight (resume 1 (recordActivity 0 ''damage'' 100 0
                                (newFightHistoryManager 0 :: unit manager))) =
     Some \<lparr> fightId = ''fight_0'', startTime = 0, endTime = None, duration = 0,
            totalDamage = 0, totalHealing = 0, userStats = JsMap, isActive = True \<rparr>"
proof -
  have a: "currentFightId example_manager \<noteq> None \<and> lastActivityTime example_manager = 2000 \<and>
      (0::int) < 2000 \<and> fightTimeout example_manager = 15000"
    by (simp add: example_manager_eq)
  have b: "currentFightId (newFightHistoryManager 0 :: unit manager) = None"
      "pending (newFightHistoryManager 0 :: unit manager) = []"
    by (simp_all add: newFightHistoryManager_def)
  show ?thesis
    using a b
      boundary_correctness [of example_manager 2000 15000 "''damage''" 1 17001]
      boundary_correctness [of example_manager 2000 15000 "''damage''" 1 17000]
      boundary_correctness [of "newFightHistoryManager 0 :: unit manager" 0 0 "''damage''" 100 0 0 1]
    by (simp add: fight_id_0)
qed

subsection \<open>C3: the scenario of three activities\<close>

lemma scenario1_eq:
  "run (scenario1 n1) (newFightHistoryManager c :: unit manager) =
     \<lparr> fights = [(''fight_0'',
                  \<lparr> fightId = ''fight_0'', startTime = 0, endTime = None, duration = 0,
                    totalDamage = 0, totalHealing = 0, userStats = JsMap, isActive = True \<rparr>)],
       currentFightId = Some ''fight_0'', currentFightStartTime = Some 0,
       lastActivityTime = 0, fightTimeout = 15000,
       cumulativeStats = \<lparr> cTotalDamage = 0, cTotalHealing = 0, cTotalFights = 0,
                           cTotalDuration = 0, cStartTime = Some c \<rparr>,
       pending = [] \<rparr>"
  by (simp add: scenario1_def run_def newFightHistoryManager_def op_defs fight_id_0)

lemma scenario2_eq:
  "run (scenario2 n1 n2) (newFightHistoryManager c :: unit manager) =
     \<lparr> fights = [(''fight_0'',
                  \<lparr> fightId = ''fight_0'', startTime = 0, endTime = Some n2, duration = n2,
                    totalDamage = 50, totalHealing = 0, userStats = JsMap, isActive = True \<rparr>)],
       currentFightId = Some ''fight_0'', currentFightStartTime = Some 0,
       lastActivityTime = 5000, fightTimeout = 15000,
       cumulativeStats = \<lparr> cTotalDamage = 0, cTotalHealing = 0, cTotalFights = 0,
                           cTotalDuration = 0, cStartTime = Some c \<rparr>,
       pending = [] \<rparr>"
proof -
  have "run (scenario2 n1 n2) (newFightHistoryManager c :: unit manager) =
      recordActivity 5000 ''damage'' 50 n2 (run (scenario1 n1) (newFightHistoryManager c))"
    by (simp add: scenario2_def run_def)
  then show ?thesis by (simp add: scenario1_eq op_defs)
qed

lemma scenario3_eq:
  "run (scenario3 n1 n2 n3 n4) (newFightHistoryManager c :: unit manager) =
     \<lparr> fights = [(''fight_0'',
                  \<lparr> fightId = ''fight_0'', startTime = 0, endTime = Some n4, duration = n4,
                    totalDamage = 50, totalHealing = 30, userStats = JsMap,
                    isActive = False \<rparr>),
                 (''fight_20001'',
                  \<lparr> fightId = ''fight_20001'', startTime = 20001, endTime = None,
                    duration = 0, totalDamage = 0, totalHealing = 0, userStats = JsMap,
                    isActive = True \<rparr>)],
       currentFightId = Some ''fight_20001'', currentFightStartTime = Some 20001,
       lastActivityTime = 20001, fightTimeout = 15000,
       cumulativeStats = \<lparr> cTotalDamage = 50, cTotalHealing = 30, cTotalFights = 1,
                           cTotalDuration = n4, cStartTime = Some c \<rparr>,
       pending = [] \<rparr>"
proof -
  have "run (scenario3 n1 n2 n3 n4) (newFightHistoryManager c :: unit manager) =
      resume n4 (recordActivity 20001 ''healing'' 30 n3
        (run (scenario2 n1 n2) (newFightHistoryManager c)))"
    by (simp add: scenario3_def run_def)
  then show ?thesis by (simp add: scenario2_eq op_defs fight_id_20001)
qed

text \<open>
  C3 says that the scenario gives \<open>fight_0\<close> damage 100 and then 150, finalizes it with
  damage 150, gives \<open>fight_20001\<close> healing 30, and reports \<open>totalFights = 1\<close> and
  \<open>totalDamage = 150\<close>. The code does not: \<open>recordActivity\<close> calls the asynchronous
  \<open>startNewFight\<close> without awaiting it, so the activity that opens an encounter is applied
  before the encounter exists. With the clock equal to the timestamps, the first activity
  is dropped (\<open>fight_0\<close> holds damage 0 after the first call and 50 after the second), the
  healing at the boundary lands in the old \<open>fight_0\<close>, which is finalized with damage 50
  and healing 30, \<open>fight_20001\<close> starts with healing 0, and \<open>getCumulativeStats\<close> reports
  \<open>totalDamage = 50\<close> and, the size of the store, \<open>totalFights = 2\<close>.
\<close>

theorem scenario_three_activities_code:
  "map_option totalDamage
     (getCurrentFight (run (scenario1 0) (newFightHistoryManager 0 :: unit manager))) = Some 0
   \<and> map_option fightId
       (getCurrentFight (run (scenario2 0 5000) (newFightHistoryManager 0 :: unit manager))) =
       Some ''fight_0''
   \<and> map_option totalDamage
       (getCurrentFight (run (scenario2 0 5000) (newFightHistoryManager 0 :: unit manager))) = Some 50
   \<and> getFightData ''fight_0''
       (run (scenario3 0 5000 20001 20001) (newFightHistoryManager 0 :: unit manager)) =
       Some \<lparr> fightId = ''fight_0'', startTime = 0, endTime = Some 20001, duration = 20001,
              totalDamage = 50, totalHealing = 30, userStats = JsMap, isActive = False \<rparr>
   \<and> getCurrentFight
       (run (scenario3 0 5000 20001 20001) (newFightHistoryManager 0 :: unit manager)) =
       Some \<lparr> fightId = ''fight_20001'', startTime = 20001, endTime = None, duration = 0,
              totalDamage = 0, totalHealing = 0, userStats = JsMap, isActive = True \<rparr>
   \<and> cTotalFights
       (getCumulativeStats
          (run (scenario3 0 5000 20001 20001) (newFightHistoryManager 0 :: unit manager))) = 2
   \<and> cTotalDamage
       (getCumulativeStats
          (run (scenario3 0 5000 20001 20001) (newFightHistoryManager 0 :: unit manager))) = 50"
  by (simp add: scenario1_eq scenario2_eq scenario3_eq getFightData_def getCurrentFight_def
        getCumulativeStats_def)

subsection \<open>C4: finalizing twice\<close>

lemma finalizeCurrentFight_found:
  assumes "getCurrentFight m = Some fight"
  shows "cumulativeStats (finalizeCurrentFight now m) =
           (cumulativeStats m)
             \<lparr>cTotalDamage := cTotalDamage (cumulativeStats m) + totalDamage fight,
              cTotalHealing := cTotalHealing (cumulativeStats m) + totalHealing fight,
              cTotalFights := cTotalFights (cumulativeStats m) + 1,
              cTotalDuration := cTotalDuration (cumulativeStats m) + (now - startTime fight)\<rparr>"
    and "getCurrentFight (finalizeCurrentFight now m) =
           Some (fight\<lparr>endTime := Some now, duration := now - startTime fight,
                       isActive := False\<rparr>)"
  using assms
  by (auto simp: getCurrentFight_def finalizeCurrentFight_def Let_def update_conv'
        split: option.splits)

lemma finalizeCurrentFight_not_found:
  "getCurrentFight m = None \<Longrightarrow> finalizeCurrentFight now m = m"
  by (auto simp: getCurrentFight_def finalizeCurrentFight_def split: option.splits)

text \<open>
  C4, as far as the code goes: \<open>finalizeCurrentFight\<close> does not look at \<open>isActive\<close>.
  Whenever the current encounter is in the store, it folds that encounter into the
  cumulative statistics (\<open>totalFights\<close> grows by 1, the totals by those of the encounter)
  and marks it inactive, also when the encounter is inactive already: two calls in a row
  count it twice. It does nothing exactly when there is no current encounter in the store.
  The callers change the current encounter right after finalizing: \<open>startNewFight\<close>
  replaces it, and once \<open>checkForInactivity\<close> has fired, the statistics are those of one
  finalization and finalizing again or a second \<open>checkForInactivity\<close> changes nothing.
\<close>

theorem finalize_once_by_clearing:
  "(getCurrentFight m = None \<longrightarrow> finalizeCurrentFight now m = m)
   \<and> (getCurrentFight m = Some fight \<longrightarrow>
        cumulativeStats (finalizeCurrentFight now m) =
          (cumulativeStats m)
            \<lparr>cTotalDamage := cTotalDamage (cumulativeStats m) + totalDamage fight,
             cTotalHealing := cTotalHealing (cumulativeStats m) + totalHealing fight,
             cTotalFights := cTotalFights (cumulativeStats m) + 1,
             cTotalDuration := cTotalDuration (cumulativeStats m) + (now - startTime fight)\<rparr>
        \<and> getCurrentFight (finalizeCurrentFight now m) =
            Some (fight\<lparr>endTime := Some now, duration := now - startTime fight,
                        isActive := False\<rparr>)
        \<and> cTotalFights (cumulativeStats (finalizeCurrentFight now' (finalizeCurrentFight now m))) =
            cTotalFights (cumulativeStats m) + 2
        \<and> cTotalDamage (cumulativeStats (finalizeCurrentFight now' (finalizeCurrentFight now m))) =
            cTotalDamage (cumulativeStats m) + 2 * totalDamage fight)
   \<and> cumulativeStats (startNewFight_body now timestamp m) =
       cumulativeStats (finalizeCurrentFight now m)
   \<and> currentFightId (startNewFight_body now timestamp m) = Some (fight_id timestamp)
   \<and> (currentFightId m \<noteq> None \<and> 0 < lastActivityTime m \<and>
        fightTimeout m < currentTime - lastActivityTime m \<longrightarrow>
        currentFightId (checkForInactivity currentTime now m) = None \<and>
        cumulativeStats (checkForInactivity currentTime now m) =
          cumulativeStats (finalizeCurrentFight now m) \<and>
        finalizeCurrentFight now' (checkForInactivity currentTime now m) =
          checkForInactivity currentTime now m \<and>
        checkForInactivity currentTime' now' (checkForInactivity currentTime now m) =
          checkForInactivity currentTime now m)"
proof (intro conjI impI)
  assume "getCurrentFight m = None"
  then show "finalizeCurrentFight now m = m" by (rule finalizeCurrentFight_not_found)
next
  assume a: "getCurrentFight m = Some fight"
  let ?fight' = "fight\<lparr>endTime := Some now, duration := now - startTime fight, isActive := False\<rparr>"
  show c1: "cumulativeStats (finalizeCurrentFight now m) =
          (cumulativeStats m)
            \<lparr>cTotalDamage := cTotalDamage (cumulativeStats m) + totalDamage fight,
             cTotalHealing := cTotalHealing (cumulativeStats m) + totalHealing fight,
             cTotalFights := cTotalFights (cumulativeStats m) + 1,
             cTotalDuration := cTotalDuration (cumulativeStats m) + (now - startTime fight)\<rparr>"
    using a by (rule finalizeCurrentFight_found(1))
  show g1: "getCurrentFight (finalizeCurrentFight now m) = Some ?fight'"
    using a by (rule finalizeCurrentFight_found(2))
  have c2: "cumulativeStats (finalizeCurrentFight now' (finalizeCurrentFight now m)) =
      (cumulativeStats (finalizeCurrentFight now m))
        \<lparr>cTotalDamage := cTotalDamage (cumulativeStats (finalizeCurrentFight now m)) +
                          totalDamage ?fight',
         cTotalHealing := cTotalHealing (cumulativeStats (finalizeCurrentFight now m)) +
                          totalHealing ?fight',
         cTotalFights := cTotalFights (cumulativeStats (finalizeCurrentFight now m)) + 1,
         cTotalDuration := cTotalDuration (cumulativeStats (finalizeCurrentFight now m)) +
                          (now' - startTime ?fight')\<rparr>"
    using g1 by (rule finalizeCurrentFight_found(1))
  show "cTotalFights (cumulativeStats (finalizeCurrentFight now' (finalizeCurrentFight now m))) =
      cTotalFights (cumulativeStats m) + 2"
    by (simp add: c2 c1)
  show "cTotalDamage (cumulativeStats (finalizeCurrentFight now' (finalizeCurrentFight now m))) =
      cTotalDamage (cumulativeStats m) + 2 * totalDamage fight"
    by (simp add: c2 c1)
next
  show "cumulativeStats (startNewFight_body now timestamp m) =
      cumulativeStats (finalizeCurrentFight now m)"
    by (simp add: startNewFight_body_def Let_def)
next
  show "currentFightId (startNewFight_body now timestamp m) = Some (fight_id timestamp)"
    by (simp add: startNewFight_body_def Let_def)
next
  assume "currentFightId m \<noteq> None \<and> 0 < lastActivityTime m \<and>
    fightTimeout m < currentTime - lastActivityTime m"
  then show "currentFightId (checkForInactivity currentTime now m) = None"
    and "cumulativeStats (checkForInactivity currentTime now m) =
      cumulativeStats (finalizeCurrentFight now m)"
    and "finalizeCurrentFight now' (checkForInactivity currentTime now m) =
      checkForInactivity currentTime now m"
    and "checkForInactivity currentTime' now' (checkForInactivity currentTime now m) =
      checkForInactivity currentTime now m"
    by (simp_all add: checkForInactivity_def)
qed

theorem finalize_once_by_clearing_witness:
  "cTotalFights (cumulativeStats example_manager) = 0
   \<and> cTotalFights (cumulativeStats (finalizeCurrentFight 20000 example_manager)) = 1
   \<and> cTotalDamage (cumulativeStats (finalizeCurrentFight 20000 example_manager)) = 50
   \<and> cTotalFights (cumulativeStats (checkForInactivity 20000 20000 example_manager)) = 1
   \<and> cTotalFights (cumulativeStats
        (finalizeCurrentFight 20001 (checkForInactivity 20000 20000 example_manager))) = 1
   \<and> cTotalFights (cumulativeStats
        (checkForInactivity 40000 20001 (checkForInactivity 20000 20000 example_manager))) = 1
   \<and> finalizeCurrentFight 1 (newFightHistoryManager 0 :: unit manager) = newFightHistoryManager 0"
proof -
  let ?fight = "\<lparr> fightId = ''fight_1000'', startTime = 1000, endTime = Some 2001,
                  duration = 1001, totalDamage = 50, totalHealing = 0,
                  userStats = (JsMap :: unit userStats), isActive = True \<rparr>"
  have a: "currentFightId example_manager \<noteq> None \<and> 0 < lastActivityTime example_manager \<and>
      fightTimeout example_manager < 20000 - lastActivityTime example_manager"
    by (simp add: example_manager_eq)
  have b: "getCurrentFight example_manager = Some ?fight"
    by (simp add: example_manager_eq getCurrentFight_def)
  have c: "getCurrentFight (newFightHistoryManager 0 :: unit manager) = None"
    by (simp add: newFightHistoryManager_def getCurrentFight_def)
  have d: "cumulativeStats example_manager =
      \<lparr> cTotalDamage = 0, cTotalHealing = 0, cTotalFights = 0, cTotalDuration = 0,
        cStartTime = Some 0 \<rparr>"
    by (simp add: example_manager_eq)
  show ?thesis
    using a b c
      finalize_once_by_clearing [of "newFightHistoryManager 0 :: unit manager" 1]
      finalize_once_by_clearing [of example_manager 20000 ?fight 20001 0 20000 40000]
    by (simp add: d)
qed

text \<open>
  Finalizing the same encounter twice in a row folds it into the cumulative statistics
  twice: the second call finds an encounter that is already inactive and counts it again.
\<close>

theorem finalize_twice_counterexample:
  "cTotalFights (cumulativeStats (finalizeCurrentFight 3000 example_manager)) = 1
   \<and> cTotalDamage (cumulativeStats (finalizeCurrentFight 3000 example_manager)) = 50
   \<and> map_option isActive (getFightData ''fight_1000'' (finalizeCurrentFight 3000 example_manager)) =
       Some False
   \<and> cTotalFights (cumulativeStats
        (finalizeCurrentFight 3000 (finalizeCurrentFight 3000 example_manager))) = 2
   \<and> cTotalDamage (cumulativeStats
        (finalizeCurrentFight 3000 (finalizeCurrentFight 3000 example_manager))) = 100"
  by (simp add: example_manager_eq finalizeCurrentFight_def getFightData_def)

subsection \<open>C5: \<open>totalFights\<close> counts the finalized encounters\<close>

text \<open>
  C5, as far as the code goes: from a manager whose \<open>totalFights\<close> equals the number of
  encounters in the store with \<open>isActive == false\<close> and whose current encounter, if it is
  in the store, is active (a new manager and a manager that has just loaded a consistent
  snapshot are such), along every sequence of \<open>recordActivity\<close>, \<open>checkForInactivity\<close>,
  \<open>forceStartNewFight\<close> and \<open>clearHistory\<close> calls in which each started fight gets an
  id that is not yet in the store, \<open>cumulativeStats.totalFights\<close> equals the number of
  encounters in the store with \<open>isActive == false\<close>, which are the encounters
  \<open>getAllFights\<close> lists.
\<close>

theorem cumulative_consistency:
  "consistent m \<Longrightarrow> fresh_ids ops m \<Longrightarrow>
   cTotalFights (cumulativeStats (run ops m)) = int (length (getAllFights (run ops m)))
   \<and> length (getAllFights (run ops m)) =
       length (filter (\<lambda>(k, fight). \<not> isActive fight) (fights (run ops m)))"
  using consistent_run [of m ops] by (simp add: consistent_def length_getAllFights)

theorem cumulative_consistency_witness:
  "consistent (newFightHistoryManager 0 :: unit manager)
   \<and> fresh_ids (scenario3 0 5000 20001 20001) (newFightHistoryManager 0 :: unit manager)
   \<and> cTotalFights (cumulativeStats
        (run (scenario3 0 5000 20001 20001) (newFightHistoryManager 0 :: unit manager))) = 1
   \<and> length (getAllFights
        (run (scenario3 0 5000 20001 20001) (newFightHistoryManager 0 :: unit manager))) = 1
   \<and> consistent restored_manager
   \<and> fresh_ids [RecordActivity 10000 ''damage'' 10 10000, Resume 10001,
                 CheckForInactivity 30000 30000] restored_manager
   \<and> cTotalFights (cumulativeStats
        (run [RecordActivity 10000 ''damage'' 10 10000, Resume 10001,
              CheckForInactivity 30000 30000] restored_manager)) = 1
   \<and> length (getAllFights
        (run [RecordActivity 10000 ''damage'' 10 10000, Resume 10001,
              CheckForInactivity 30000 30000] restored_manager)) = 1"
proof -
  have a: "consistent (newFightHistoryManager 0 :: unit manager)"
    by (rule consistent_new)
  have b: "fresh_ids (scenario3 0 5000 20001 20001) (newFightHistoryManager 0 :: unit manager)"
    by (simp add: scenario3_def scenario2_def scenario1_def newFightHistoryManager_def op_defs
          fight_id_0 fight_id_20001)
  have c: "cTotalFights (cumulativeStats
        (run (scenario3 0 5000 20001 20001) (newFightHistoryManager 0 :: unit manager))) = 1"
    by (simp add: scenario3_eq)
  have a': "consistent restored_manager"
    by (rule consistent_restored)
  have b': "fresh_ids [RecordActivity 10000 ''damage'' 10 10000, Resume 10001,
                 CheckForInactivity 30000 30000] restored_manager"
    by (simp add: restored_manager_eq op_defs fight_id_10000)
  have c': "cTotalFights (cumulativeStats
        (run [RecordActivity 10000 ''damage'' 10 10000, Resume 10001,
              CheckForInactivity 30000 30000] restored_manager)) = 1"
    by (simp add: restored_manager_eq run_def op_defs fight_id_10000)
  show ?thesis
    using a b c a' b' c' cumulative_consistency [OF a b] cumulative_consistency [OF a' b']
    by simp
qed

text \<open>
  Two fights started with the same timestamp share the id \<open>fight_5\<close>: the second one
  overwrites the finalized first one in the store, so \<open>totalFights\<close> is 1 while the store
  holds no finalized encounter.
\<close>

theorem cumulative_consistency_counterexample:
  "cTotalFights (cumulativeStats
     (run [ForceStartNewFight 5, Resume 6, ForceStartNewFight 5, Resume 7]
        (newFightHistoryManager 0 :: unit manager))) = 1
   \<and> length (filter (\<lambda>(k, fight). \<not> isActive fight)
       (fights (run [ForceStartNewFight 5, Resume 6, ForceStartNewFight 5, Resume 7]
          (newFightHistoryManager 0 :: unit manager)))) = 0
   \<and> getAllFights
       (run [ForceStartNewFight 5, Resume 6, ForceStartNewFight 5, Resume 7]
          (newFightHistoryManager 0 :: unit manager)) = []"
  by (simp add: run_def newFightHistoryManager_def op_defs fight_id_5 getAllFights_def)

subsection \<open>C6: an encounter restored as active\<close>




subsection \<open>C7: the bounds of the timeout\<close>

text \<open>
  C7, as far as the code goes: the handler of \<open>POST /fight/timeout\<close> answers a numeric
  \<open>ms\<close> outside 5000 .. 60000 with an error and leaves the timeout unchanged, and otherwise
  sets the timeout to \<open>ms\<close>; \<open>updateFightTimeout\<close> of the manager itself sets the timeout
  to any value. In particular the requests 3000 and then 100000 are both rejected, and the
  timeout remains what it was before them.
\<close>

theorem timeout_bounds:
  "post_fight_timeout (JsNumber ms) m =
     (if ms < 5000 \<or> 60000 < ms then Inl InvalidTimeoutValue
      else Inr (m\<lparr>fightTimeout := ms\<rparr>))
   \<and> after_post_fight_timeout (JsNumber ms) m =
       (if ms < 5000 \<or> 60000 < ms then m else m\<lparr>fightTimeout := ms\<rparr>)
   \<and> after_post_fight_timeout (JsNumber 100000) (after_post_fight_timeout (JsNumber 3000) m) = m
   \<and> fightTimeout (updateFightTimeout ms m) = ms"
  by (simp add: post_fight_timeout_def after_post_fight_timeout_def updateFightTimeout_def)

theorem timeout_bounds_witness:
  "post_fight_timeout (JsNumber 4999) (newFightHistoryManager 0 :: unit manager) =
     Inl InvalidTimeoutValue
   \<and> post_fight_timeout (JsNumber 60001) (newFightHistoryManager 0 :: unit manager) =
     Inl InvalidTimeoutValue
   \<and> map_sum id fightTimeout
       (post_fight_timeout (JsNumber 5000) (newFightHistoryManager 0 :: unit manager)) = Inr 5000
   \<and> map_sum id fightTimeout
       (post_fight_timeout (JsNumber 60000) (newFightHistoryManager 0 :: unit manager)) = Inr 60000"
  using timeout_bounds [of 4999 "newFightHistoryManager 0 :: unit manager"]
    timeout_bounds [of 60001 "newFightHistoryManager 0 :: unit manager"]
    timeout_bounds [of 5000 "newFightHistoryManager 0 :: unit manager"]
    timeout_bounds [of 60000 "newFightHistoryManager 0 :: unit manager"]
  by simp

text \<open>
  After the values 3000 and 100000 the timeout is not 3000: through the route both
  requests are rejected and the timeout is still the default 15000; called directly,
  \<open>updateFightTimeout\<close> accepts both and the timeout is 100000.
\<close>

theorem timeout_scenario_counterexample:
  "post_fight_timeout (JsNumber 3000) (newFightHistoryManager 0 :: unit manager) =
     Inl InvalidTimeoutValue
   \<and> fightTimeout
       (after_post_fight_timeout (JsNumber 100000)
          (after_post_fight_timeout (JsNumber 3000) (newFightHistoryManager 0 :: unit manager))) =
       15000
   \<and> fightTimeout
       (updateFightTimeout 100000
          (updateFightTimeout 3000 (newFightHistoryManager 0 :: unit manager))) = 100000"
  by (simp add: post_fight_timeout_def after_post_fight_timeout_def updateFightTimeout_def
        newFightHistoryManager_def)

subsection \<open>C8: saving and loading\<close>

lemma keys_json_entries:
  "map fst (map (\<lambda>(k, fight). (k, fight\<lparr>userStats := json_userStats (userStats fight)\<rparr>)) al) =
     map fst al"
  by (induction al) auto

lemma json_entries_plain:
  "\<forall>(k, fight) \<in> set al. userStats fight \<noteq> JsMap \<Longrightarrow>
   map (\<lambda>(k, fight). (k, fight\<lparr>userStats := json_userStats (userStats fight)\<rparr>)) al = al"
  by (induction al) (auto simp: json_userStats_def split: userStats.splits)

lemma object_entries_json [simp]: "object_entries (json_userStats us) = object_entries us"
  by (cases us) (simp_all add: json_userStats_def)

lemma object_keys_json [simp]: "object_keys (json_userStats us) = object_keys us"
  by (cases us) (simp_all add: json_userStats_def)

lemma json_userStats_idem [simp]: "json_userStats (json_userStats us) = json_userStats us"
  by (cases us) (simp_all add: json_userStats_def)

lemma fights_round_trip:
  assumes "distinct (map fst (fights m))"
  shows "fights (loadFightHistory (Some (saveFightHistory now m)) m') =
           map (\<lambda>(k, fight). (k, fight\<lparr>userStats := json_userStats (userStats fight)\<rparr>)) (fights m)"
proof -
  let ?entries =
    "map (\<lambda>(k, fight). (k, fight\<lparr>userStats := json_userStats (userStats fight)\<rparr>)) (fights m)"
  have "distinct (map fst ([] @ ?entries))"
    using assms by (simp only: append_Nil keys_json_entries)
  then have "fold (\<lambda>(k, v). AList.update k v) ?entries [] = [] @ ?entries"
    by (rule fold_update_distinct)
  then show ?thesis by (simp add: loadFightHistory_def saveFightHistory_def)
qed

lemma encounter_fields_json:
  "map (\<lambda>(k, fight). (k, encounter_fields fight))
     (map (\<lambda>(k, fight). (k, fight\<lparr>userStats := json_userStats (userStats fight)\<rparr>)) al) =
   map (\<lambda>(k, fight). (k, encounter_fields fight)) al"
  by (induction al) (auto simp: encounter_fields_def)

lemma getAllFights_json:
  "fights m1 = map (\<lambda>(k, fight). (k, fight\<lparr>userStats := json_userStats (userStats fight)\<rparr>)) (fights m) \<Longrightarrow>
   getAllFights m1 = getAllFights m"
proof -
  assume a: "fights m1 =
    map (\<lambda>(k, fight). (k, fight\<lparr>userStats := json_userStats (userStats fight)\<rparr>)) (fights m)"
  have "map (\<lambda>(k, fight).
               \<lparr> cfId = fightId fight, cfStartTime = startTime fight, cfEndTime = endTime fight,
                 cfDuration = duration fight, cfTotalDamage = totalDamage fight,
                 cfTotalHealing = totalHealing fight,
                 cfUserCount = length (object_keys (userStats fight)) \<rparr>)
          (filter (\<lambda>(k, fight). \<not> isActive fight)
             (map (\<lambda>(k, fight). (k, fight\<lparr>userStats := json_userStats (userStats fight)\<rparr>)) al)) =
        map (\<lambda>(k, fight).
               \<lparr> cfId = fightId fight, cfStartTime = startTime fight, cfEndTime = endTime fight,
                 cfDuration = duration fight, cfTotalDamage = totalDamage fight,
                 cfTotalHealing = totalHealing fight,
                 cfUserCount = length (object_keys (userStats fight)) \<rparr>)
          (filter (\<lambda>(k, fight). \<not> isActive fight) al)" for al :: "(string \<times> 'a fight) list"
    by (induction al) auto
  then show ?thesis by (simp add: getAllFights_def a)
qed

lemma saved_fights_json:
  "map (\<lambda>(k, fight). (k, fight\<lparr>userStats := json_userStats (userStats fight)\<rparr>))
     (map (\<lambda>(k, fight). (k, fight\<lparr>userStats := json_userStats (userStats fight)\<rparr>)) al) =
   map (\<lambda>(k, fight). (k, fight\<lparr>userStats := json_userStats (userStats fight)\<rparr>)) al"
  by (induction al) auto

text \<open>
  C8: for every store (a JavaScript \<open>Map\<close>, so with distinct keys), loading what
  \<open>saveFightHistory\<close> wrote reproduces the encounters, in their order and under their
  keys, field for field, and the cumulative counters exactly. The participant snapshots are
  compared as the mapping they hold: each encounter comes back as it was, with the
  \<open>userStats\<close> of a fight that never received a snapshot, an empty \<open>Map\<close>, as the empty
  object. What the manager shows of the store is the same before and after: the list of
  \<open>getAllFights\<close> and the file that a further save writes. When no encounter holds a
  \<open>Map\<close>, the loaded store is identical to the saved one.
\<close>

theorem persistence_round_trip:
  "distinct (map fst (fights m)) \<longrightarrow>
     map (\<lambda>(k, fight). (k, encounter_fields fight))
       (fights (loadFightHistory (Some (saveFightHistory now m)) m')) =
     map (\<lambda>(k, fight). (k, encounter_fields fight)) (fights m)
     \<and> cumulativeStats (loadFightHistory (Some (saveFightHistory now m)) m') = cumulativeStats m
     \<and> fights (loadFightHistory (Some (saveFightHistory now m)) m') =
         map (\<lambda>(k, fight). (k, fight\<lparr>userStats := JsObject (object_entries (userStats fight))\<rparr>))
           (fights m)
     \<and> getAllFights (loadFightHistory (Some (saveFightHistory now m)) m') = getAllFights m
     \<and> saveFightHistory now' (loadFightHistory (Some (saveFightHistory now m)) m') =
         saveFightHistory now' m
     \<and> ((\<forall>(k, fight) \<in> set (fights m). userStats fight \<noteq> JsMap) \<longrightarrow>
          fights (loadFightHistory (Some (saveFightHistory now m)) m') = fights m)"
proof (intro impI)
  assume d: "distinct (map fst (fights m))"
  let ?m = "loadFightHistory (Some (saveFightHistory now m)) m'"
  have f: "fights ?m =
      map (\<lambda>(k, fight). (k, fight\<lparr>userStats := json_userStats (userStats fight)\<rparr>)) (fights m)"
    using d by (rule fights_round_trip)
  have j: "json_userStats us = JsObject (object_entries us)" for us :: "'a userStats"
    by (cases us) (simp_all add: json_userStats_def)
  have v: "map (\<lambda>(k, fight). (k, encounter_fields fight)) (fights ?m) =
      map (\<lambda>(k, fight). (k, encounter_fields fight)) (fights m)"
    unfolding f by (rule encounter_fields_json)
  have c: "cumulativeStats ?m = cumulativeStats m"
    by (simp add: loadFightHistory_def saveFightHistory_def)
  have o: "fights ?m =
      map (\<lambda>(k, fight). (k, fight\<lparr>userStats := JsObject (object_entries (userStats fight))\<rparr>))
        (fights m)"
    using f by (simp add: j)
  have g: "getAllFights ?m = getAllFights m"
    using f by (rule getAllFights_json)
  have s: "saveFightHistory now' ?m = saveFightHistory now' m"
    unfolding saveFightHistory_def [of now'] f c saved_fights_json by (rule refl)
  have e: "(\<forall>(k, fight) \<in> set (fights m). userStats fight \<noteq> JsMap) \<longrightarrow> fights ?m = fights m"
    using f json_entries_plain [of "fights m"] by simp
  show "map (\<lambda>(k, fight). (k, encounter_fields fight)) (fights ?m) =
      map (\<lambda>(k, fight). (k, encounter_fields fight)) (fights m) \<and>
      cumulativeStats ?m = cumulativeStats m \<and>
      fights ?m =
        map (\<lambda>(k, fight). (k, fight\<lparr>userStats := JsObject (object_entries (userStats fight))\<rparr>))
          (fights m) \<and>
      getAllFights ?m = getAllFights m \<and>
      saveFightHistory now' ?m = saveFightHistory now' m \<and>
      ((\<forall>(k, fight) \<in> set (fights m). userStats fight \<noteq> JsMap) \<longrightarrow> fights ?m = fights m)"
    using v c o g s e by blast
qed

theorem persistence_round_trip_witness:
  "distinct (map fst (fights example_manager))
   \<and> map (\<lambda>(k, fight). (k, encounter_fields fight))
       (fights (loadFightHistory (Some (saveFightHistory 5000 example_manager))
                  (newFightHistoryManager 9000))) =
     [(''fight_1000'', ''fight_1000'', 1000, Some 2001, 1001, 50, 0, [], True)]
   \<and> map (\<lambda>(k, fight). (k, encounter_fields fight)) (fights example_manager) =
     [(''fight_1000'', ''fight_1000'', 1000, Some 2001, 1001, 50, 0, [], True)]
   \<and> cumulativeStats (loadFightHistory (Some (saveFightHistory 5000 example_manager))
                  (newFightHistoryManager 9000)) = cumulativeStats example_manager
   \<and> fights (loadFightHistory (Some (saveFightHistory 12000 restored_manager))
               (newFightHistoryManager 20000)) = fights restored_manager"
proof -
  have a: "distinct (map fst (fights example_manager))"
    by (simp add: example_manager_eq)
  have b: "map (\<lambda>(k, fight). (k, encounter_fields fight)) (fights example_manager) =
      [(''fight_1000'', ''fight_1000'', 1000, Some 2001, 1001, 50, 0, [], True)]"
    by (simp add: example_manager_eq encounter_fields_def)
  have a': "distinct (map fst (fights restored_manager))"
    by (simp add: restored_manager_eq)
  have b': "\<forall>(k, fight) \<in> set (fights restored_manager). userStats fight \<noteq> JsMap"
    by (simp add: restored_manager_eq)
  have "map (\<lambda>(k, fight). (k, encounter_fields fight))
       (fights (loadFightHistory (Some (saveFightHistory 5000 example_manager))
                  (newFightHistoryManager 9000))) =
      map (\<lambda>(k, fight). (k, encounter_fields fight)) (fights example_manager)
      \<and> cumulativeStats (loadFightHistory (Some (saveFightHistory 5000 example_manager))
                  (newFightHistoryManager 9000)) = cumulativeStats example_manager"
    using a persistence_round_trip [of example_manager 5000 "newFightHistoryManager 9000"]
    by blast
  moreover have "fights (loadFightHistory (Some (saveFightHistory 12000 restored_manager))
               (newFightHistoryManager 20000)) = fights restored_manager"
    using a' b'
      persistence_round_trip [of restored_manager 12000 "newFightHistoryManager 20000"]
    by blast
  ultimately show ?thesis using a b by simp
qed

subsection \<open>C9: the accumulators under negative values\<close>




subsection \<open>C10: activities that are neither damage nor healing\<close>

text \<open>
  C10: for an activity type other than \<open>damage\<close> and \<open>healing\<close>,
  \<open>updateCurrentFightStats\<close> on an existing current encounter changes nothing in the
  manager but that encounter, and in it only \<open>endTime\<close>, set to the clock, and
  \<open>duration\<close>, set to \<open>endTime - startTime\<close>; \<open>totalDamage\<close>, \<open>totalHealing\<close> and all
  other fields are as before.
\<close>

theorem other_activity_frame:
  "currentFightId m = Some cid \<and> map_of (fights m) cid = Some fight \<and>
   activityType \<noteq> ''damage'' \<and> activityType \<noteq> ''healing'' \<longrightarrow>
     updateCurrentFightStats now activityType val m =
       m\<lparr>fights := AList.update cid
            (fight\<lparr>endTime := Some now, duration := now - startTime fight\<rparr>) (fights m)\<rparr>
     \<and> getCurrentFight (updateCurrentFightStats now activityType val m) =
         Some (fight\<lparr>endTime := Some now, duration := now - startTime fight\<rparr>)
     \<and> (\<forall>k. k \<noteq> cid \<longrightarrow>
           getFightData k (updateCurrentFightStats now activityType val m) = getFightData k m)"
  by (simp add: updateCurrentFightStats_def getCurrentFight_def getFightData_def update_conv')

theorem other_activity_frame_witness:
  "getCurrentFight (updateCurrentFightStats 3000 ''shield'' 7 example_manager) =
     Some \<lparr> fightId = ''fight_1000'', startTime = 1000, endTime = Some 3000,
            duration = 2000, totalDamage = 50, totalHealing = 0, userStats = JsMap,
            isActive = True \<rparr>"
proof -
  let ?fight = "\<lparr> fightId = ''fight_1000'', startTime = 1000, endTime = Some 2001,
                  duration = 1001, totalDamage = 50, totalHealing = 0,
                  userStats = (JsMap :: unit userStats), isActive = True \<rparr>"
  have a: "currentFightId example_manager = Some ''fight_1000'' \<and>
      map_of (fights example_manager) ''fight_1000'' = Some ?fight \<and>
      ''shield'' \<noteq> ''damage'' \<and> ''shield'' \<noteq> ''healing''"
    by (simp add: example_manager_eq)
  have "getCurrentFight (updateCurrentFightStats 3000 ''shield'' 7 example_manager) =
      Some (?fight\<lparr>endTime := Some 3000, duration := 3000 - startTime ?fight\<rparr>)"
    using a other_activity_frame [of example_manager "''fight_1000''" ?fight "''shield''" 3000 7]
    by blast
  then show ?thesis by simp
qed

end
